theory Spec2Isabelle
  imports Main "HOL-Library.Word" "HOL-Library.Sublist"
begin

section \<open>JavaScript strings\<close>

text \<open>
  A JavaScript string is a sequence of UTF-16 code units; \<open>length\<close>, \<open>trim\<close> and
  regular expressions without the \<open>u\<close> flag all work on code units.
\<close>

type_synonym jsstring = "16 word list"

text \<open>ASCII literals of the source, written as HOL strings, read as code units.\<close>

definition js :: "string \<Rightarrow> jsstring" where
  "js s = map of_char s"

definition truthy :: "jsstring option \<Rightarrow> bool" where
  \<comment> \<open>\<open>null\<close>, \<open>undefined\<close> and the empty string are falsy\<close>
  "truthy v = (case v of None \<Rightarrow> False | Some s \<Rightarrow> s \<noteq> [])"

definition isWhiteSpace :: "16 word \<Rightarrow> bool" where
  \<comment> \<open>ECMAScript WhiteSpace and LineTerminator, the code units \<open>trim\<close> strips\<close>
  "isWhiteSpace c =
     (c = 0x09 \<or> c = 0x0A \<or> c = 0x0B \<or> c = 0x0C \<or> c = 0x0D \<or> c = 0x20 \<or> c = 0xA0
      \<or> c = 0x1680 \<or> (0x2000 \<le> c \<and> c \<le> 0x200A) \<or> c = 0x2028 \<or> c = 0x2029
      \<or> c = 0x202F \<or> c = 0x205F \<or> c = 0x3000 \<or> c = 0xFEFF)"

definition trim :: "jsstring \<Rightarrow> jsstring" where
  "trim s = rev (dropWhile isWhiteSpace (rev (dropWhile isWhiteSpace s)))"

text \<open>
  \<open>RegExp.prototype.test\<close> for a pattern without the \<open>g\<close> flag and without a leading
  anchor: the pattern is tried at every start position, left to right.
\<close>

fun search :: "(jsstring \<Rightarrow> bool) \<Rightarrow> jsstring \<Rightarrow> bool" where
  "search p [] = p []"
| "search p (c # t) = (p (c # t) \<or> search p t)"

section \<open>card-viewer.js: personalizeMessage\<close>

definition placeholder :: jsstring where
  "placeholder = js ''{name}''"

definition dollar :: "16 word" where
  "dollar = 0x24"

text \<open>
  \<open>GetSubstitution\<close> of ECMAScript for a pattern without capture groups: in the
  replacement text \<open>$$\<close> stands for a dollar sign, \<open>$&\<close> for the matched text,
  \<open>$`\<close> (0x60) for the text preceding the match and \<open>$'\<close> (0x27) for the text following
  it. With no captures \<open>$1\<close>..\<open>$99\<close> and \<open>$<\<close> are copied literally, as every other
  code unit is.
\<close>

fun getSubstitution :: "jsstring \<Rightarrow> jsstring \<Rightarrow> jsstring \<Rightarrow> jsstring \<Rightarrow> jsstring" where
  "getSubstitution matched preceding following [] = []"
| "getSubstitution matched preceding following [c] = [c]"
| "getSubstitution matched preceding following (c # d # t) =
     (if c = dollar \<and> d = dollar then dollar # getSubstitution matched preceding following t
      else if c = dollar \<and> d = 0x60 then preceding @ getSubstitution matched preceding following t
      else if c = dollar \<and> d = 0x26 then matched @ getSubstitution matched preceding following t
      else if c = dollar \<and> d = 0x27 then following @ getSubstitution matched preceding following t
      else c # getSubstitution matched preceding following (d # t))"

text \<open>
  \<open>message.replace(/\{name\}/g, name)\<close> with \<open>name\<close> a string: the matches of the
  literal \<open>{name}\<close> are found left to right without overlap in the original string,
  and each is replaced by the expansion of \<open>name\<close> at that match. \<open>preceding\<close> is the
  part of the original string already passed.
\<close>

fun replaceName :: "jsstring \<Rightarrow> jsstring \<Rightarrow> jsstring \<Rightarrow> jsstring" where
  "replaceName name preceding [] = []"
| "replaceName name preceding (c # t) =
     (if prefix placeholder (c # t)
      then getSubstitution placeholder preceding (drop 5 t) name
             @ replaceName name (preceding @ placeholder) (drop 5 t)
      else c # replaceName name (preceding @ [c]) t)"

definition personalizeMessage :: "jsstring \<Rightarrow> jsstring \<Rightarrow> jsstring" where
  "personalizeMessage message name = replaceName name [] message"

text \<open>
  The specification's reading of personalization: every occurrence of the literal
  \<open>{name}\<close> becomes the viewer name, taken literally, and all other text stays.
\<close>

fun substitute_literal :: "jsstring \<Rightarrow> jsstring \<Rightarrow> jsstring" where
  "substitute_literal name [] = []"
| "substitute_literal name (c # t) =
     (if prefix placeholder (c # t) then name @ substitute_literal name (drop 5 t)
      else c # substitute_literal name t)"

text \<open>Whether the literal \<open>{name}\<close> occurs somewhere in a string.\<close>

definition has_placeholder :: "jsstring \<Rightarrow> bool" where
  "has_placeholder s = search (prefix placeholder) s"

text \<open>The number of matches that the global replace finds in a string.\<close>

fun matches :: "jsstring \<Rightarrow> nat" where
  "matches [] = 0"
| "matches (c # t) =
     (if prefix placeholder (c # t) then Suc (matches (drop 5 t)) else matches t)"

section \<open>utils.js: validators\<close>

record validation =
  isValid :: bool
  errors :: "string list"

text \<open>
  \<open>/<[^>]*>/\<close> tried at the start of \<open>s\<close>: a \<open><\<close> (0x3C), then the longest run of
  code units other than \<open>>\<close> (0x3E), then a \<open>>\<close>. A shorter run never helps, since the
  code unit after it is not a \<open>>\<close>.
\<close>

definition tag_here :: "jsstring \<Rightarrow> bool" where
  "tag_here s =
     (case s of [] \<Rightarrow> False
      | c # t \<Rightarrow> c = 0x3C \<and> dropWhile (\<lambda>x. x \<noteq> 0x3E) t \<noteq> [])"

text \<open>
  The specification's reading of "contains markup": the string has a place where an
  HTML parser leaves text, a \<open><\<close> directly followed by an ASCII letter (a start
  tag), by \<open>/\<close> (an end tag), or by \<open>!\<close> or \<open>?\<close> (a declaration or comment).
\<close>

definition isAsciiLetter :: "16 word \<Rightarrow> bool" where
  "isAsciiLetter c = ((0x41 \<le> c \<and> c \<le> 0x5A) \<or> (0x61 \<le> c \<and> c \<le> 0x7A))"

definition markup_here :: "jsstring \<Rightarrow> bool" where
  "markup_here s =
     (case s of
        c # d # _ \<Rightarrow> c = 0x3C \<and> (isAsciiLetter d \<or> d = 0x2F \<or> d = 0x21 \<or> d = 0x3F)
      | _ \<Rightarrow> False)"

definition contains_markup :: "jsstring \<Rightarrow> bool" where
  "contains_markup s = search markup_here s"

definition validateRecipientName :: "jsstring \<Rightarrow> validation" where
  "validateRecipientName name =
     (let errors =
        (if name = [] \<or> trim name = [] then [''Name is required'']
         else
           (let trimmedName = trim name in
              (if length trimmedName < 1 then [''Name cannot be empty''] else [])
              @ (if length trimmedName > 100
                 then [''Name must be less than 100 characters''] else [])
              @ (if search tag_here trimmedName
                 then [''Name contains invalid characters''] else [])))
      in \<lparr>isValid = (length errors = 0), errors = errors\<rparr>)"

text \<open>
  Matching with the \<open>i\<close> flag and without the \<open>u\<close> flag compares canonicalized code
  units. A code unit outside ASCII never canonicalizes to an ASCII one, so against
  the ASCII patterns of this file only the letters a-z are folded.
\<close>

definition canonicalize :: "16 word \<Rightarrow> 16 word" where
  "canonicalize c = (if 0x61 \<le> c \<and> c \<le> 0x7A then c - 0x20 else c)"

fun ci_prefix :: "jsstring \<Rightarrow> jsstring \<Rightarrow> bool" where
  "ci_prefix [] s = True"
| "ci_prefix (p # ps) [] = False"
| "ci_prefix (p # ps) (c # cs) = (canonicalize p = canonicalize c \<and> ci_prefix ps cs)"

definition isWordChar :: "16 word \<Rightarrow> bool" where
  \<comment> \<open>\<open>\w\<close>: letters, digits and the underscore\<close>
  "isWordChar c =
     ((0x30 \<le> c \<and> c \<le> 0x39) \<or> (0x41 \<le> c \<and> c \<le> 0x5A) \<or> c = 0x5F
      \<or> (0x61 \<le> c \<and> c \<le> 0x7A))"

text \<open>
  \<open>/on\w+=/i\<close> tried at the start of \<open>s\<close>: \<open>\w+\<close> has to take the whole run of word
  characters, since \<open>=\<close> (0x3D) is not one.
\<close>

definition handler_here :: "jsstring \<Rightarrow> bool" where
  "handler_here s =
     (ci_prefix (js ''on'') s
      \<and> takeWhile isWordChar (drop 2 s) \<noteq> []
      \<and> (case dropWhile isWordChar (drop 2 s) of [] \<Rightarrow> False | c # _ \<Rightarrow> c = 0x3D))"

definition suspiciousPatterns :: "(jsstring \<Rightarrow> bool) list" where
  \<comment> \<open>\<open>[/<script/i, /javascript:/i, /on\w+=/i]\<close>, each as its \<open>test\<close>\<close>
  "suspiciousPatterns =
     [search (ci_prefix (js ''<script'')), search (ci_prefix (js ''javascript:'')),
      search handler_here]"

definition validateMessage :: "jsstring \<Rightarrow> validation" where
  "validateMessage message =
     (let errors =
        (if message = [] \<or> trim message = [] then [''Message is required'']
         else
           (let trimmedMessage = trim message in
              (if length trimmedMessage < 10
               then [''Message must be at least 10 characters long''] else [])
              @ (if length trimmedMessage > 1000
                 then [''Message must be less than 1000 characters''] else [])
              @ (if list_ex (\<lambda>pattern. pattern trimmedMessage) suspiciousPatterns
                 then [''Message contains invalid content''] else [])))
      in \<lparr>isValid = (length errors = 0), errors = errors\<rparr>)"

section \<open>Errors, requests and responses\<close>

text \<open>
  The text of an error message: a literal of the source, a string that came from the
  server, or one of the two templates that embed the response status
  (\<open>HTTP error! status: ${status}\<close> and \<open>Failed to load card: ${status}\<close>).
\<close>

datatype msg_text = Lit string | Dyn jsstring | HttpErrorStatus nat | FailedToLoadCard nat

text \<open>
  The exceptions that reach a caller: \<open>Error\<close> objects made by the source with
  \<open>new Error\<close>, the \<open>TypeError\<close> of a rejected \<open>fetch\<close> or of a method call on
  \<open>undefined\<close>, the \<open>SyntaxError\<close> of \<open>response.json()\<close> on a body that is not JSON
  and the \<open>URIError\<close> of \<open>encodeURIComponent\<close> on a lone surrogate.
\<close>

datatype js_error = Error msg_text | TypeError msg_text | SyntaxError | URIError

text \<open>The fields that the source reads from a parsed JSON body; absent fields are \<open>None\<close>.\<close>

record json_obj =
  detail :: "jsstring option"
  message :: "jsstring option"
  ai_voice_path :: "jsstring option"

record response =
  status :: nat
  statusText :: jsstring
  json :: "json_obj option"

definition ok :: "response \<Rightarrow> bool" where
  "ok r = (200 \<le> status r \<and> status r \<le> 299)"

datatype fetch_outcome = Rejected jsstring | Response response

text \<open>
  The URLs that the viewer builds, kept structured: \<open>CardUrl id name\<close> is
  \<open>${baseUrl}/cards/${id}\<close>, followed by \<open>?recipient_name=\<close> and the encoded name when
  there is one; \<open>AudioUrl id name\<close> is \<open>${baseUrl}/cards/${id}/audio?recipient_name=\<close>
  and the encoded name; \<open>StaticUrl path\<close> is \<open>${baseUrl}/${path}\<close>; \<open>ApiUrl\<close> is any
  other URL handed to \<open>makeRequest\<close>.
\<close>

datatype endpoint =
  CardUrl jsstring "jsstring option" | AudioUrl jsstring jsstring | StaticUrl jsstring
  | ApiUrl jsstring

record request =
  target :: endpoint
  http_method :: "string option"
  headers :: "string \<rightharpoonup> jsstring"
  body :: "jsstring option"

text \<open>
  \<open>encodeURIComponent\<close> throws on a string that is not well-formed UTF-16, and is
  injective on the others.
\<close>

definition isHighSurrogate :: "16 word \<Rightarrow> bool" where
  "isHighSurrogate c = (0xD800 \<le> c \<and> c \<le> 0xDBFF)"

definition isLowSurrogate :: "16 word \<Rightarrow> bool" where
  "isLowSurrogate c = (0xDC00 \<le> c \<and> c \<le> 0xDFFF)"

fun wellFormed :: "jsstring \<Rightarrow> bool" where
  "wellFormed [] = True"
| "wellFormed [c] = (\<not> isHighSurrogate c \<and> \<not> isLowSurrogate c)"
| "wellFormed (c # d # t) =
     (if isHighSurrogate c then isLowSurrogate d \<and> wellFormed t
      else \<not> isLowSurrogate c \<and> wellFormed (d # t))"

text \<open>The browser state that the source reads and writes.\<close>

record browser =
  localStorage :: "string \<rightharpoonup> jsstring"
  pathname :: jsstring
  href :: "jsstring option"
  onLine :: bool

section \<open>utils.js: makeRequest\<close>

record options =
  o_method :: "string option"
  o_headers :: "string \<rightharpoonup> jsstring"
  o_body :: "jsstring option"

definition or_else :: "jsstring option \<Rightarrow> msg_text \<Rightarrow> msg_text" where
  \<comment> \<open>\<open>a || b\<close> for a string or \<open>undefined\<close> on the left\<close>
  "or_else a b = (case a of None \<Rightarrow> b | Some s \<Rightarrow> if s = [] then b else Dyn s)"

definition clearSession :: "browser \<Rightarrow> browser" where
  \<comment> \<open>the three \<open>localStorage.removeItem\<close> calls and the redirect of case 401\<close>
  "clearSession b =
     b\<lparr>localStorage :=
         (localStorage b)(''authToken'' := None, ''userId'' := None, ''username'' := None),
       href :=
         (if pathname b \<noteq> js ''/index.html'' \<and> \<not> suffix (js ''index.html'') (pathname b)
          then Some (js ''index.html'') else href b)\<rparr>"

definition mergedOptions :: "endpoint \<Rightarrow> options \<Rightarrow> browser \<Rightarrow> request" where
  \<comment> \<open>the default headers, with the bearer token when there is one, overridden by
      the caller's options\<close>
  "mergedOptions url opts b =
     (let token = localStorage b ''authToken'';
          defaultHeaders =
            (case token of
               None \<Rightarrow> [''Content-Type'' \<mapsto> js ''application/json'']
             | Some t \<Rightarrow>
                 if t = [] then [''Content-Type'' \<mapsto> js ''application/json'']
                 else [''Content-Type'' \<mapsto> js ''application/json'',
                       ''Authorization'' \<mapsto> js ''Bearer '' @ t])
      in \<lparr>target = url, http_method = o_method opts,
          headers = defaultHeaders ++ o_headers opts, body = o_body opts\<rparr>)"

definition makeRequest ::
  "(request \<Rightarrow> 'w \<Rightarrow> fetch_outcome \<times> 'w) \<Rightarrow> endpoint \<Rightarrow> options \<Rightarrow> browser \<Rightarrow> 'w
     \<Rightarrow> (js_error + json_obj) \<times> browser \<times> 'w" where
  "makeRequest fetch url opts b w =
     (case fetch (mergedOptions url opts b) w of
        (Rejected m, w') \<Rightarrow>
          (Inl (if search (prefix (js ''fetch'')) m
                then Error (Lit ''Network error. Please check your internet connection and try again.'')
                else TypeError (Dyn m)), b, w')
      | (Response r, w') \<Rightarrow>
          if \<not> ok r then
            (let fallback = HttpErrorStatus (status r);
                 errorMessage =
                   (case json r of
                      Some errorData \<Rightarrow>
                        or_else (detail errorData) (or_else (message errorData) fallback)
                    | None \<Rightarrow> or_else (Some (statusText r)) fallback)
             in if status r = 401 then
                  (Inl (Error (Lit ''Session expired. Please log in again.'')),
                   clearSession b, w')
                else if status r = 403 then
                  (Inl (Error (Lit ''Access denied. You do not have permission to perform this action.'')), b, w')
                else if status r = 404 then
                  (Inl (Error (Lit ''The requested resource was not found.'')), b, w')
                else if status r = 429 then
                  (Inl (Error (Lit ''Too many requests. Please wait a moment and try again.'')), b, w')
                else if status r = 500 then
                  (Inl (Error (Lit ''Server error. Please try again later.'')), b, w')
                else if status r = 503 then
                  (Inl (Error (Lit ''Service temporarily unavailable. Please try again later.'')), b, w')
                else (Inl (Error errorMessage), b, w'))
          else
            (case json r of
               None \<Rightarrow> (Inl SyntaxError, b, w')
             | Some data \<Rightarrow> (Inr data, b, w')))"

section \<open>card-viewer.js: loadCard\<close>

record viewer =
  cardId :: "jsstring option"
  cardData :: "json_obj option"

definition isIdChar :: "16 word \<Rightarrow> bool" where
  \<comment> \<open>the class \<open>[a-zA-Z0-9_-]\<close>\<close>
  "isIdChar c =
     ((0x61 \<le> c \<and> c \<le> 0x7A) \<or> (0x41 \<le> c \<and> c \<le> 0x5A) \<or> (0x30 \<le> c \<and> c \<le> 0x39)
      \<or> c = 0x5F \<or> c = 0x2D)"

definition valid_card_id :: "jsstring \<Rightarrow> bool" where
  \<comment> \<open>\<open>/^[a-zA-Z0-9_-]+$/.test\<close>; without the \<open>m\<close> flag, \<open>$\<close> is the end of the input\<close>
  "valid_card_id s = (s \<noteq> [] \<and> list_all isIdChar s)"

definition first_error :: "validation \<Rightarrow> msg_text" where
  \<comment> \<open>\<open>errors[0]\<close>; \<open>new Error(undefined)\<close> has the empty message\<close>
  "first_error v = (case errors v of [] \<Rightarrow> Lit [] | e # _ \<Rightarrow> Lit e)"

definition card_url :: "jsstring \<Rightarrow> jsstring option \<Rightarrow> js_error + endpoint" where
  "card_url cid recipientName =
     (case recipientName of
        None \<Rightarrow> Inr (CardUrl cid None)
      | Some n \<Rightarrow>
          if n = [] then Inr (CardUrl cid None)
          else if wellFormed n then Inr (CardUrl cid (Some n)) else Inl URIError)"

definition load_failure :: "response \<Rightarrow> js_error" where
  \<comment> \<open>the branch \<open>!response.ok\<close> of \<open>loadCard\<close>\<close>
  "load_failure r =
     (let errorMessage =
        (case json r of
           Some errorData \<Rightarrow>
             if truthy (detail errorData) then detail errorData else message errorData
         | None \<Rightarrow> Some (statusText r))
      in if status r = 404 then
           Error (Lit ''Wedding card not found. Please check the QR code and try again.'')
         else if status r = 400 then
           Error (or_else errorMessage
                    (Lit ''Invalid request. Please try scanning the QR code again.''))
         else if status r = 500 then
           Error (Lit ''Server error. Please try again in a few moments.'')
         else Error (or_else errorMessage (FailedToLoadCard (status r))))"

definition loadCard ::
  "(request \<Rightarrow> 'w \<Rightarrow> fetch_outcome \<times> 'w) \<Rightarrow> browser \<Rightarrow> viewer \<Rightarrow> jsstring option
     \<Rightarrow> jsstring option \<Rightarrow> 'w \<Rightarrow> (js_error + json_obj) \<times> viewer \<times> 'w" where
  "loadCard fetch b v card_id recipientName w =
     (if \<not> truthy card_id then (Inl (Error (Lit ''No card ID provided'')), v, w)
      else if \<not> valid_card_id (the card_id) then
        (Inl (Error (Lit ''Invalid card ID format'')), v, w)
      else if truthy recipientName
              \<and> \<not> isValid (validateRecipientName (the recipientName)) then
        (Inl (Error (first_error (validateRecipientName (the recipientName)))), v, w)
      else if \<not> onLine b then
        (Inl (Error (Lit ''You are offline. Please check your internet connection and try again.'')), v, w)
      else
        (case card_url (the card_id) recipientName of
           Inl e \<Rightarrow> (Inl e, v, w)
         | Inr url \<Rightarrow>
             (case fetch \<lparr>target = url, http_method = Some ''GET'',
                          headers = [''Content-Type'' \<mapsto> js ''application/json''],
                          body = None\<rparr> w of
                (Rejected m, w') \<Rightarrow> (Inl (TypeError (Dyn m)), v, w')
              | (Response r, w') \<Rightarrow>
                  if \<not> ok r then (Inl (load_failure r), v, w')
                  else
                    (case json r of
                       None \<Rightarrow> (Inl SyntaxError, v, w')
                     | Some data \<Rightarrow> (Inr data, v\<lparr>cardData := Some data\<rparr>, w')))))"

text \<open>A \<open>fetch\<close> that also records every request it is called with.\<close>

definition logged ::
  "(request \<Rightarrow> 'w \<Rightarrow> fetch_outcome \<times> 'w) \<Rightarrow> request \<Rightarrow> request list \<times> 'w
     \<Rightarrow> fetch_outcome \<times> request list \<times> 'w" where
  "logged fetch req lw =
     (case fetch req (snd lw) of (out, w') \<Rightarrow> (out, fst lw @ [req], w'))"

section \<open>card-viewer.js: playAudio and the name form\<close>

text \<open>
  What the audio section of the page shows after the form was submitted. The page
  elements that the handlers look up are taken to exist.
\<close>

datatype audio_view =
  Untouched \<comment> \<open>\<open>playAudio\<close> returned early: no audio path\<close>
  | Playing endpoint \<comment> \<open>the source was set and playback started\<close>
  | ClickToPlay endpoint \<comment> \<open>the source was set, autoplay was refused, a note is shown\<close>
  | SetupWarning \<comment> \<open>setting up threw; \<open>Utils.showWarning\<close> was called\<close>
  | ComingSoon \<comment> \<open>label and note that the audio will be available soon\<close>

text \<open>
  \<open>media\<close> is the browser loading the source of the audio element and trying to play
  it: it says whether playback started and gives the world after the request.
\<close>

definition playAudio ::
  "(endpoint \<Rightarrow> 'w \<Rightarrow> bool \<times> 'w) \<Rightarrow> viewer \<Rightarrow> jsstring option \<Rightarrow> jsstring option \<Rightarrow> 'w
     \<Rightarrow> audio_view \<times> 'w" where
  "playAudio media v audioPath recipientName w =
     (if \<not> truthy audioPath then (Untouched, w)
      else if truthy recipientName \<and> truthy (cardId v) then
        (if wellFormed (the recipientName) then
           (case media (AudioUrl (the (cardId v)) (the recipientName)) w of
              (True, w') \<Rightarrow> (Playing (AudioUrl (the (cardId v)) (the recipientName)), w')
            | (False, w') \<Rightarrow>
                (ClickToPlay (AudioUrl (the (cardId v)) (the recipientName)), w'))
         else (SetupWarning, w))
      else
        (case media (StaticUrl (the audioPath)) w of
           (True, w') \<Rightarrow> (Playing (StaticUrl (the audioPath)), w')
         | (False, w') \<Rightarrow> (ClickToPlay (StaticUrl (the audioPath)), w')))"

text \<open>The audio part of the submit handler: the branch on \<open>card.ai_voice_path\<close>.\<close>

definition show_audio ::
  "(endpoint \<Rightarrow> 'w \<Rightarrow> bool \<times> 'w) \<Rightarrow> viewer \<Rightarrow> json_obj \<Rightarrow> jsstring \<Rightarrow> 'w
     \<Rightarrow> audio_view \<times> 'w" where
  "show_audio media v data recipientName w =
     (if truthy (ai_voice_path data)
      then playAudio media v (ai_voice_path data) (Some recipientName) w
      else (ComingSoon, w))"

datatype page =
  Notified msg_text \<comment> \<open>\<open>Utils.showError\<close> of the first validation error; the form stays\<close>
  | ErrorPage js_error \<comment> \<open>\<open>cardViewer.showError\<close> replaced the page\<close>
  | CardShown jsstring audio_view \<comment> \<open>the personalized message and the audio section\<close>

text \<open>
  The submit handler of the name form. \<open>field\<close> is the value of the input. A card
  without a \<open>message\<close> makes \<open>personalizeMessage\<close> call \<open>replace\<close> on \<open>undefined\<close>, a
  \<open>TypeError\<close> whose wording depends on the engine.
\<close>

definition submit ::
  "(request \<Rightarrow> 'w \<Rightarrow> fetch_outcome \<times> 'w) \<Rightarrow> (endpoint \<Rightarrow> 'w \<Rightarrow> bool \<times> 'w) \<Rightarrow> browser
     \<Rightarrow> viewer \<Rightarrow> jsstring \<Rightarrow> 'w \<Rightarrow> page \<times> viewer \<times> 'w" where
  "submit fetch media b v field w =
     (let recipientName = trim field;
          nameValidation = validateRecipientName recipientName
      in if \<not> isValid nameValidation then (Notified (first_error nameValidation), v, w)
         else
           (case loadCard fetch b v (cardId v) (Some recipientName) w of
              (Inl e, v', w') \<Rightarrow> (ErrorPage e, v', w')
            | (Inr data, v', w') \<Rightarrow>
                (case message data of
                   None \<Rightarrow> (ErrorPage (TypeError (Lit ''replace of undefined'')), v', w')
                 | Some m \<Rightarrow>
                     (case show_audio media v' data recipientName w' of
                        (a, w'') \<Rightarrow>
                          (CardShown (personalizeMessage m recipientName) a, v', w'')))))"

section \<open>The card access protocol of the server\<close>

text \<open>
  The backend is not part of the sources at hand; the store and the two operations of
  the protocol follow sections 3 and 4.1 of the specification.
\<close>

record card_record =
  owner_id :: nat
  c_message :: jsstring
  c_ai_voice_path :: "jsstring option"
  view_count :: nat

record view_event =
  card_id :: jsstring
  viewer_name :: jsstring
  viewed_at :: nat
  ip_address :: "jsstring option"

record store =
  cards :: "jsstring \<rightharpoonup> card_record"
  events :: "view_event list"

datatype proto_error = InvalidInput | NotFound

record rendered =
  r_message :: jsstring
  r_ai_voice_path :: "jsstring option"

text \<open>What the transport knows of a request: its time and, optionally, its address.\<close>

record origin =
  now :: nat
  ip :: "jsstring option"

text \<open>
  Modelled from the spec: the validation of \<open>viewer_name\<close> by the absent
  backend, "free text, 1-100 chars, must not contain markup".
\<close>

definition name_ok :: "jsstring \<Rightarrow> bool" where
  "name_ok n = (1 \<le> length n \<and> length n \<le> 100 \<and> \<not> search tag_here n)"

text \<open>
  Modelled from the spec: the contract "resolve and render a card for a viewer" of the
  absent backend. The format check comes before any store access; a request without a
  name returns the raw template and writes nothing; a request with a valid name
  substitutes the sanitized name, appends one View Event and increments the card's
  counter in the same step. \<open>sanitize\<close> is the sanitization that the
  specification names and does not define.
\<close>

definition render_card ::
  "(jsstring \<Rightarrow> jsstring) \<Rightarrow> origin \<Rightarrow> jsstring \<Rightarrow> jsstring option \<Rightarrow> store
     \<Rightarrow> proto_error + (rendered \<times> store)" where
  "render_card sanitize org cid name st =
     (if \<not> valid_card_id cid then Inl InvalidInput
      else
        (case cards st cid of
           None \<Rightarrow> Inl NotFound
         | Some c \<Rightarrow>
             (case name of
                None \<Rightarrow>
                  Inr (\<lparr>r_message = c_message c, r_ai_voice_path = c_ai_voice_path c\<rparr>, st)
              | Some n \<Rightarrow>
                  if \<not> name_ok n then Inl InvalidInput
                  else
                    Inr (\<lparr>r_message = substitute_literal (sanitize n) (c_message c),
                          r_ai_voice_path = c_ai_voice_path c\<rparr>,
                         st\<lparr>events :=
                              events st
                              @ [\<lparr>card_id = cid, viewer_name = sanitize n,
                                  viewed_at = now org, ip_address = ip org\<rparr>],
                            cards := (cards st)(cid \<mapsto> c\<lparr>view_count := view_count c + 1\<rparr>)\<rparr>))))"

datatype audio_result = NotAvailable | Reference jsstring

text \<open>
  Modelled from the spec: the contract "resolve audio for playback" of the absent
  backend. A card without \<open>ai_voice_path\<close> gives the sentinel, not an
  error, and audio resolution never records a view.
\<close>

definition resolve_audio ::
  "jsstring \<Rightarrow> jsstring option \<Rightarrow> store \<Rightarrow> proto_error + (audio_result \<times> store)" where
  "resolve_audio cid name st =
     (if \<not> valid_card_id cid then Inl InvalidInput
      else
        (case cards st cid of
           None \<Rightarrow> Inl NotFound
         | Some c \<Rightarrow>
             (case c_ai_voice_path c of
                None \<Rightarrow> Inr (NotAvailable, st)
              | Some path \<Rightarrow> Inr (Reference path, st))))"

text \<open>
  Modelled from the spec: error responses of the absent backend carry a \<open>{detail:
  string}\<close> body; the wording of the detail is not fixed there.
\<close>

definition error_response :: "nat \<Rightarrow> string \<Rightarrow> response" where
  "error_response code d =
     \<lparr>status = code, statusText = [],
      json = Some \<lparr>detail = Some (js d), message = None, ai_voice_path = None\<rparr>\<rparr>"

text \<open>
  Modelled from the spec: the HTTP surface of the absent backend for \<open>GET
  /cards/{card_id}?recipient_name=\<close>, with 400 for invalid input and 404 for an
  absent card or resource.
\<close>

definition serve ::
  "(jsstring \<Rightarrow> jsstring) \<Rightarrow> origin \<Rightarrow> request \<Rightarrow> store \<Rightarrow> fetch_outcome \<times> store" where
  "serve sanitize org req st =
     (case target req of
        CardUrl cid name \<Rightarrow>
          (case render_card sanitize org cid name st of
             Inl InvalidInput \<Rightarrow> (Response (error_response 400 ''Invalid input''), st)
           | Inl NotFound \<Rightarrow> (Response (error_response 404 ''Card not found''), st)
           | Inr (out, st') \<Rightarrow>
               (Response
                  \<lparr>status = 200, statusText = js ''OK'',
                   json = Some \<lparr>detail = None, message = Some (r_message out),
                                ai_voice_path = r_ai_voice_path out\<rparr>\<rparr>, st'))
      | _ \<Rightarrow> (Response (error_response 404 ''Not found''), st))"

text \<open>
  Modelled from the spec: the absent backend answering the audio element's request for
  \<open>GET /cards/{card_id}/audio\<close>; playback starts only when there is a
  reference to play.
\<close>

definition load_media :: "endpoint \<Rightarrow> store \<Rightarrow> bool \<times> store" where
  "load_media url st =
     (case url of
        AudioUrl cid name \<Rightarrow>
          (case resolve_audio cid (Some name) st of
             Inr (Reference path, st') \<Rightarrow> (True, st')
           | Inr (NotAvailable, st') \<Rightarrow> (False, st')
           | Inl e \<Rightarrow> (False, st))
      | _ \<Rightarrow> (False, st))"

text \<open>The operations of the protocol, and a run of them; a failed operation writes nothing.\<close>

datatype operation =
  Render origin jsstring "jsstring option" | ResolveAudio jsstring "jsstring option"

definition step :: "(jsstring \<Rightarrow> jsstring) \<Rightarrow> store \<Rightarrow> operation \<Rightarrow> store" where
  "step sanitize st opn =
     (case opn of
        Render org cid name \<Rightarrow>
          (case render_card sanitize org cid name st of Inl _ \<Rightarrow> st | Inr (_, st') \<Rightarrow> st')
      | ResolveAudio cid name \<Rightarrow>
          (case resolve_audio cid name st of Inl _ \<Rightarrow> st | Inr (_, st') \<Rightarrow> st'))"

definition run :: "(jsstring \<Rightarrow> jsstring) \<Rightarrow> store \<Rightarrow> operation list \<Rightarrow> store" where
  "run sanitize st ops = foldl (step sanitize) st ops"

definition views_of :: "store \<Rightarrow> jsstring \<Rightarrow> nat" where
  "views_of st cid = length (filter (\<lambda>e. card_id e = cid) (events st))"

definition counts_agree :: "store \<Rightarrow> bool" where
  "counts_agree st = (\<forall>cid c. cards st cid = Some c \<longrightarrow> view_count c = views_of st cid)"

section \<open>Sample data\<close>

text \<open>
  A logged-in browser, a server that answers every request with a given status, and
  the card of the specification's scenario, not yet viewed.
\<close>

definition session :: browser where
  "session =
     \<lparr>localStorage = [''authToken'' \<mapsto> js ''t0k'', ''userId'' \<mapsto> js ''7'',
                       ''username'' \<mapsto> js ''ann'', ''theme'' \<mapsto> js ''dark''],
      pathname = js ''/dashboard.html'', href = None, onLine = True\<rparr>"

definition reply :: "nat \<Rightarrow> request \<Rightarrow> unit \<Rightarrow> fetch_outcome \<times> unit" where
  "reply code req w = (Response \<lparr>status = code, statusText = [], json = None\<rparr>, ())"

definition sample_store :: store where
  "sample_store =
     \<lparr>cards = [js ''abc123'' \<mapsto>
                 \<lparr>owner_id = 1, c_message = js ''Dear {name}, thank you!'',
                  c_ai_voice_path = None, view_count = 0\<rparr>],
      events = []\<rparr>"

definition sample_origin :: origin where
  "sample_origin = \<lparr>now = 1700000000, ip = None\<rparr>"

definition sample_viewer :: viewer where
  "sample_viewer = \<lparr>cardId = Some (js ''abc123''), cardData = None\<rparr>"

definition sample_ops :: "operation list" where
  "sample_ops =
     [Render sample_origin (js ''abc123'') (Some (js ''Alice'')),
      ResolveAudio (js ''abc123'') (Some (js ''Alice'')),
      Render sample_origin (js ''abc123'') None,
      Render sample_origin (js ''nope'') (Some (js ''Bob'')),
      Render sample_origin (js ''abc123'') (Some (js ''Bob''))]"

section \<open>Facts about searching\<close>

lemma search_iff: "search P s \<longleftrightarrow> (\<exists>u r. s = u @ r \<and> P r)"
proof (induction s)
  case Nil
  then show ?case by simp
next
  case (Cons c t)
  show ?case
  proof
    assume "search P (c # t)"
    then consider "P (c # t)" | "search P t" by auto
    then show "\<exists>u r. c # t = u @ r \<and> P r"
    proof cases
      case 1
      then have "c # t = [] @ (c # t) \<and> P (c # t)" by simp
      then show ?thesis by blast
    next
      case 2
      then obtain u r where "t = u @ r" "P r" using Cons.IH by blast
      then have "c # t = (c # u) @ r \<and> P r" by simp
      then show ?thesis by blast
    qed
  next
    assume "\<exists>u r. c # t = u @ r \<and> P r"
    then obtain u r where ur: "c # t = u @ r" "P r" by blast
    show "search P (c # t)"
    proof (cases u)
      case Nil
      then have "P (c # t)" using ur by simp
      then show ?thesis by simp
    next
      case (Cons a u')
      then have "t = u' @ r" using ur by simp
      then show ?thesis using ur(2) Cons.IH by auto
    qed
  qed
qed

lemma has_placeholder_iff: "has_placeholder s \<longleftrightarrow> (\<exists>u v. s = u @ placeholder @ v)"
  unfolding has_placeholder_def search_iff prefix_def by blast

lemma tag_here_iff: "tag_here s \<longleftrightarrow> (\<exists>v w. s = 0x3C # v @ 0x3E # w)"
proof (cases s)
  case Nil
  then show ?thesis by (simp add: tag_here_def)
next
  case (Cons c t)
  have "dropWhile (\<lambda>x. x \<noteq> 0x3E) t \<noteq> [] \<longleftrightarrow> (0x3E::16 word) \<in> set t"
    by (auto simp: dropWhile_eq_Nil_conv)
  also have "\<dots> \<longleftrightarrow> (\<exists>v w. t = v @ 0x3E # w)"
    by (auto simp: in_set_conv_decomp)
  finally show ?thesis using Cons by (auto simp: tag_here_def)
qed

lemma markup_iff:
  "search tag_here s \<longleftrightarrow> (\<exists>u v w. s = u @ 0x3C # v @ 0x3E # w)"
  unfolding search_iff tag_here_iff by blast

lemma trim_Nil: "trim [] = []"
  by (simp add: trim_def)

section \<open>Personalization\<close>

lemma getSubstitution_no_dollar:
  "dollar \<notin> set name \<Longrightarrow> getSubstitution m b a name = name"
  by (induction m b a name rule: getSubstitution.induct) auto

lemma replaceName_no_dollar:
  "dollar \<notin> set name \<Longrightarrow> replaceName name b s = substitute_literal name s"
  by (induction name b s rule: replaceName.induct) (simp_all add: getSubstitution_no_dollar)

lemma personalizeMessage_literal:
  "dollar \<notin> set name \<Longrightarrow> personalizeMessage s name = substitute_literal name s"
  by (simp add: personalizeMessage_def replaceName_no_dollar)

lemma replaceName_no_placeholder:
  "\<not> search (prefix placeholder) s \<Longrightarrow> replaceName name b s = s"
  by (induction name b s rule: replaceName.induct) simp_all

lemma length_placeholder: "length placeholder = 6"
  by (simp add: placeholder_def js_def)

lemma placeholder_not_Nil: "placeholder \<noteq> []"
  by (simp add: placeholder_def js_def)

lemma prefix_placeholder_drop:
  "prefix placeholder (c # t) \<Longrightarrow> c # t = placeholder @ drop 5 t"
proof -
  assume "prefix placeholder (c # t)"
  then obtain zs where zs: "c # t = placeholder @ zs" by (auto simp: prefix_def)
  have "drop 6 (c # t) = zs" unfolding zs by (simp add: length_placeholder)
  then have "drop 5 t = zs" by simp
  then show ?thesis using zs by simp
qed

lemma length_substitute_literal:
  "length (substitute_literal name s) + 6 * matches s = length s + length name * matches s"
proof (induction name s rule: substitute_literal.induct)
  case (1 name)
  then show ?case by simp
next
  case (2 name c t)
  show ?case
  proof (cases "prefix placeholder (c # t)")
    case True
    then have "c # t = placeholder @ drop 5 t" by (rule prefix_placeholder_drop)
    then have "length (c # t) = 6 + length (drop 5 t)" by (metis length_append length_placeholder)
    then show ?thesis using 2 True by (simp add: algebra_simps)
  next
    case False
    then show ?thesis using 2 by simp
  qed
qed

lemma matches_pos: "search (prefix placeholder) s \<Longrightarrow> 0 < matches s"
  by (induction s rule: matches.induct) (auto simp: placeholder_not_Nil)

lemma substitute_literal_changes:
  assumes "search (prefix placeholder) s" "name \<noteq> placeholder"
  shows "substitute_literal name s \<noteq> s"
proof (cases "length name = 6")
  case False
  have "0 < matches s" using assms(1) by (rule matches_pos)
  then have "length (substitute_literal name s) \<noteq> length s"
    using length_substitute_literal[of name s] False by auto
  then show ?thesis by auto
next
  case True
  show ?thesis using assms True
  proof (induction name s rule: substitute_literal.induct)
    case (1 name)
    then show ?case by (simp add: placeholder_not_Nil)
  next
    case (2 nm c t)
    show ?case
    proof (cases "prefix placeholder (c # t)")
      case p: True
      then have eq: "c # t = placeholder @ drop 5 t" by (rule prefix_placeholder_drop)
      show ?thesis
      proof
        assume a: "substitute_literal nm (c # t) = c # t"
        have "substitute_literal nm (c # t) = nm @ substitute_literal nm (drop 5 t)"
          using p by simp
        then have "nm @ substitute_literal nm (drop 5 t) = placeholder @ drop 5 t"
          using a eq by metis
        then have "nm = placeholder"
          using 2 length_placeholder by (metis append_eq_append_conv)
        then show False using 2 by simp
      qed
    next
      case False
      then show ?thesis using 2 by simp
    qed
  qed
qed

lemma placeholder_has_placeholder: "has_placeholder placeholder"
  by (simp add: has_placeholder_def placeholder_def js_def)

lemmas string_eval =
  js_def placeholder_def dollar_def personalizeMessage_def has_placeholder_def

text \<open>
  C1. The claim: for every message and every viewer name, \<open>personalizeMessage\<close>
  returns the message with every \<open>{name}\<close> replaced by the name and nothing else
  changed. The code passes the name to \<open>String.prototype.replace\<close> as a replacement
  pattern, so a name that contains \<open>$&\<close>, \<open>$$\<close>, \<open>$`\<close> or \<open>$'\<close> is expanded instead of
  inserted: the name \<open>$&\<close>, which \<open>validateRecipientName\<close> accepts, leaves the
  placeholder in place, where the literal substitution gives \<open>Dear $&, welcome!\<close>.
\<close>

theorem personalizeMessage_expands_dollar_patterns:
  "isValid (validateRecipientName (js ''$&''))
   \<and> personalizeMessage (js ''Dear {name}, welcome!'') (js ''$&'') = js ''Dear {name}, welcome!''
   \<and> substitute_literal (js ''$&'') (js ''Dear {name}, welcome!'') = js ''Dear $&, welcome!''"
  by (simp add: string_eval validateRecipientName_def trim_def isWhiteSpace_def tag_here_def)

text \<open>
  C6. For every message without an occurrence of \<open>{name}\<close> and every viewer name,
  \<open>personalizeMessage\<close> returns the message unchanged.
\<close>

theorem personalizeMessage_without_placeholder:
  "\<not> has_placeholder M \<Longrightarrow> personalizeMessage M N = M"
  by (simp add: has_placeholder_def personalizeMessage_def replaceName_no_placeholder)

theorem personalizeMessage_without_placeholder_witness:
  "\<not> has_placeholder (js ''Welcome to our wedding!'')
   \<and> personalizeMessage (js ''Welcome to our wedding!'') (js ''$& Alice'')
       = js ''Welcome to our wedding!''"
proof -
  have h: "\<not> has_placeholder (js ''Welcome to our wedding!'')"
    by (simp add: string_eval)
  show ?thesis
    using h personalizeMessage_without_placeholder [OF h, of "js ''$& Alice''"] by simp
qed

text \<open>
  C10. The claim: for every message and every viewer name that contains neither
  \<open>{name}\<close> nor \<open>$\<close>, personalizing twice is the same as personalizing once. It fails
  when the inserted name completes a placeholder with the text around it: the
  message \<open>{{name}ame}\<close> and the name \<open>n\<close> give \<open>{name}\<close>, and then \<open>n\<close>.
\<close>

theorem personalizeMessage_not_idempotent:
  "\<not> has_placeholder (js ''n'') \<and> dollar \<notin> set (js ''n'')
   \<and> personalizeMessage (js ''{{name}ame}'') (js ''n'') = js ''{name}''
   \<and> personalizeMessage (personalizeMessage (js ''{{name}ame}'') (js ''n'')) (js ''n'') = js ''n''
   \<and> personalizeMessage (personalizeMessage (js ''{{name}ame}'') (js ''n'')) (js ''n'')
       \<noteq> personalizeMessage (js ''{{name}ame}'') (js ''n'')"
  by (simp add: string_eval)

text \<open>
  C10, amended. For every message and every viewer name that contains neither
  \<open>{name}\<close> nor \<open>$\<close>, personalizing twice is the same as personalizing once exactly
  when the message personalized once contains no \<open>{name}\<close>.
\<close>

theorem personalizeMessage_idempotent_iff:
  assumes "\<not> has_placeholder N" and "dollar \<notin> set N"
  shows "personalizeMessage (personalizeMessage M N) N = personalizeMessage M N
           \<longleftrightarrow> \<not> has_placeholder (personalizeMessage M N)"
proof
  assume eq: "personalizeMessage (personalizeMessage M N) N = personalizeMessage M N"
  have "N \<noteq> placeholder" using assms(1) placeholder_has_placeholder by auto
  then show "\<not> has_placeholder (personalizeMessage M N)"
    using eq substitute_literal_changes [of "personalizeMessage M N" N] assms(2)
    by (auto simp: has_placeholder_def personalizeMessage_literal)
next
  assume "\<not> has_placeholder (personalizeMessage M N)"
  then show "personalizeMessage (personalizeMessage M N) N = personalizeMessage M N"
    by (simp add: has_placeholder_def personalizeMessage_def replaceName_no_placeholder)
qed

theorem personalizeMessage_idempotent_iff_witness:
  "\<not> has_placeholder (js ''Alice'') \<and> dollar \<notin> set (js ''Alice'')
   \<and> \<not> has_placeholder (personalizeMessage (js ''Dear {name}!'') (js ''Alice''))
   \<and> personalizeMessage (personalizeMessage (js ''Dear {name}!'') (js ''Alice'')) (js ''Alice'')
       = personalizeMessage (js ''Dear {name}!'') (js ''Alice'')"
proof -
  have h1: "\<not> has_placeholder (js ''Alice'')" by (simp add: string_eval)
  have h2: "dollar \<notin> set (js ''Alice'')" by (simp add: string_eval)
  have h3: "\<not> has_placeholder (personalizeMessage (js ''Dear {name}!'') (js ''Alice''))"
    by (simp add: string_eval)
  show ?thesis
    using h1 h2 h3 personalizeMessage_idempotent_iff [OF h1 h2, of "js ''Dear {name}!''"]
    by simp
qed

section \<open>Validators\<close>

lemmas validator_eval =
  js_def trim_def isWhiteSpace_def tag_here_def suspiciousPatterns_def
  canonicalize_def handler_here_def isWordChar_def

lemma trim_padded:
  assumes "\<not> isWhiteSpace x"
  shows "trim (0x20 # 0x20 # replicate n x @ [0x20]) = replicate n x"
proof (cases n)
  case 0
  then show ?thesis by (simp add: trim_def isWhiteSpace_def)
next
  case (Suc m)
  have sp: "isWhiteSpace 0x20" by (simp add: isWhiteSpace_def)
  have "dropWhile isWhiteSpace (0x20 # 0x20 # replicate n x @ [0x20])
          = replicate n x @ [0x20]"
    using sp assms Suc by simp
  moreover have "rev (replicate n x @ [0x20]) = 0x20 # replicate n x"
    by simp
  moreover have "dropWhile isWhiteSpace (0x20 # replicate n x) = replicate n x"
    using sp assms Suc by simp
  ultimately show ?thesis by (simp only: trim_def rev_replicate)
qed

lemma no_tag_in_replicate:
  "x \<noteq> 0x3C \<Longrightarrow> \<not> (\<exists>u v w. replicate n x = u @ 0x3C # v @ 0x3E # w)"
proof
  assume x: "x \<noteq> 0x3C" and "\<exists>u v w. replicate n x = u @ 0x3C # v @ 0x3E # w"
  then obtain u v w where "replicate n x = u @ 0x3C # v @ 0x3E # w" by blast
  then have "0x3C \<in> set (replicate n x)" by simp
  then show False using x by auto
qed

text \<open>
  C5. The claim: \<open>validateRecipientName\<close> accepts a string exactly when its trimmed form
  has between 1 and 100 characters and contains no markup. The code looks for a \<open><\<close>
  with a \<open>>\<close> somewhere after it: the unclosed tag \<open><img src=x onerror=alert(1)\<close> is
  accepted, and \<open>1 < 2 > 0\<close>, which has no markup, is rejected.
\<close>

theorem validateRecipientName_markup_mismatch:
  "1 \<le> length (trim (js ''<img src=x onerror=alert(1)''))
   \<and> length (trim (js ''<img src=x onerror=alert(1)'')) \<le> 100
   \<and> contains_markup (trim (js ''<img src=x onerror=alert(1)''))
   \<and> isValid (validateRecipientName (js ''<img src=x onerror=alert(1)''))
   \<and> 1 \<le> length (trim (js ''1 < 2 > 0'')) \<and> length (trim (js ''1 < 2 > 0'')) \<le> 100
   \<and> \<not> contains_markup (trim (js ''1 < 2 > 0''))
   \<and> \<not> isValid (validateRecipientName (js ''1 < 2 > 0''))"
  by (simp add: validateRecipientName_def contains_markup_def markup_here_def
      isAsciiLetter_def validator_eval)

text \<open>
  C5, amended. For every string, \<open>validateRecipientName\<close> accepts it exactly when its
  trimmed form has between 1 and 100 code units and has no \<open><\<close> (0x3C) with a \<open>>\<close>
  (0x3E) anywhere after it; the error list is empty exactly for the accepted names.
\<close>

theorem validateRecipientName_accepts_exactly:
  "(isValid (validateRecipientName S)
      \<longleftrightarrow> 1 \<le> length (trim S) \<and> length (trim S) \<le> 100
          \<and> \<not> (\<exists>u v w. trim S = u @ 0x3C # v @ 0x3E # w))
   \<and> (errors (validateRecipientName S) = [] \<longleftrightarrow> isValid (validateRecipientName S))"
  unfolding markup_iff [symmetric]
  by (auto simp: validateRecipientName_def Let_def trim_Nil Suc_le_eq)

theorem validateRecipientName_accepts_exactly_witness:
  "isValid (validateRecipientName (js '' Al & Bob ''))
   \<and> errors (validateRecipientName (js '' Al & Bob '')) = []
   \<and> \<not> isValid (validateRecipientName (js ''<b>Al</b>''))
   \<and> errors (validateRecipientName (js ''<b>Al</b>'')) \<noteq> []
   \<and> \<not> isValid (validateRecipientName (js ''   ''))
   \<and> isValid (validateRecipientName (0x20 # 0x20 # replicate 100 0x41 @ [0x20]))
   \<and> \<not> isValid (validateRecipientName (0x20 # 0x20 # replicate 101 0x41 @ [0x20]))"
proof -
  have a: "1 \<le> length (trim (js '' Al & Bob ''))
           \<and> length (trim (js '' Al & Bob '')) \<le> 100
           \<and> \<not> (\<exists>u v w. trim (js '' Al & Bob '') = u @ 0x3C # v @ 0x3E # w)"
    unfolding markup_iff [symmetric] by (simp add: validator_eval)
  have b: "\<exists>u v w. trim (js ''<b>Al</b>'') = u @ 0x3C # v @ 0x3E # w"
    unfolding markup_iff [symmetric] by (simp add: validator_eval)
  have c: "\<not> 1 \<le> length (trim (js ''   ''))"
    by (simp add: validator_eval)
  have t: "trim (0x20 # 0x20 # replicate n 0x41 @ [0x20]) = replicate n 0x41" for n
    by (rule trim_padded) (simp add: isWhiteSpace_def)
  have d: "\<not> (\<exists>u v w. replicate n (0x41 :: 16 word) = u @ 0x3C # v @ 0x3E # w)" for n
    by (rule no_tag_in_replicate) simp
  show ?thesis
    using a b c d [of 100]
      validateRecipientName_accepts_exactly [of "js '' Al & Bob ''"]
      validateRecipientName_accepts_exactly [of "js ''<b>Al</b>''"]
      validateRecipientName_accepts_exactly [of "js ''   ''"]
      validateRecipientName_accepts_exactly [of "0x20 # 0x20 # replicate 100 0x41 @ [0x20]"]
      validateRecipientName_accepts_exactly [of "0x20 # 0x20 # replicate 101 0x41 @ [0x20]"]
    by (simp add: t)
qed

text \<open>
  C7. The claim: \<open>validateMessage\<close> accepts a string exactly when its trimmed form has
  between 10 and 1000 code units. The code also rejects a message that matches one of
  its three suspicious patterns, whatever its length.
\<close>

theorem validateMessage_rejects_script:
  "10 \<le> length (trim (js ''<script>hi</script>''))
   \<and> length (trim (js ''<script>hi</script>'')) \<le> 1000
   \<and> \<not> isValid (validateMessage (js ''<script>hi</script>''))"
  by (simp add: validateMessage_def validator_eval)

text \<open>
  C7, amended. \<open>validateMessage\<close> accepts a string exactly when its trimmed form has
  between 10 and 1000 code units and matches none of \<open>/<script/i\<close>, \<open>/javascript:/i\<close>
  and \<open>/on\w+=/i\<close>.
\<close>

theorem validateMessage_accepts_iff:
  "isValid (validateMessage S)
     \<longleftrightarrow> 10 \<le> length (trim S) \<and> length (trim S) \<le> 1000
         \<and> \<not> list_ex (\<lambda>pattern. pattern (trim S)) suspiciousPatterns"
  by (auto simp: validateMessage_def Let_def trim_Nil)

theorem validateMessage_accepts_iff_witness:
  "isValid (validateMessage (js '' Dear {name}! ''))
   \<and> \<not> isValid (validateMessage (js ''too short''))
   \<and> \<not> isValid (validateMessage (js ''Hi <a onclick=x()>''))"
proof -
  have a: "10 \<le> length (trim (js '' Dear {name}! ''))
           \<and> length (trim (js '' Dear {name}! '')) \<le> 1000
           \<and> \<not> list_ex (\<lambda>pattern. pattern (trim (js '' Dear {name}! '')))
                 suspiciousPatterns"
    by (simp add: validator_eval)
  have b: "\<not> 10 \<le> length (trim (js ''too short''))"
    by (simp add: validator_eval)
  have c: "list_ex (\<lambda>pattern. pattern (trim (js ''Hi <a onclick=x()>'')))
             suspiciousPatterns"
    by (simp add: validator_eval)
  show ?thesis
    using a b c validateMessage_accepts_iff [of "js '' Dear {name}! ''"]
      validateMessage_accepts_iff [of "js ''too short''"]
      validateMessage_accepts_iff [of "js ''Hi <a onclick=x()>''"]
    by blast
qed

section \<open>Requests\<close>

lemma not_ok_401: "status r = 401 \<Longrightarrow> \<not> ok r"
  by (simp add: ok_def)

lemma makeRequest_rejected:
  "fetch (mergedOptions url opts b) w = (Rejected m, w')
   \<Longrightarrow> fst (snd (makeRequest fetch url opts b w)) = b"
  by (simp add: makeRequest_def)

text \<open>
  C8. When the response to a request made through \<open>makeRequest\<close> has status 401, the
  error is raised in a browser state without the entries \<open>authToken\<close>, \<open>userId\<close> and
  \<open>username\<close> of the local storage (every other entry is kept); for every other
  status the browser state is the one before the call.
\<close>

theorem makeRequest_clears_session_only_on_401:
  assumes "fetch (mergedOptions url opts b) w = (Response r, w')"
  shows "(status r = 401 \<longrightarrow>
            makeRequest fetch url opts b w
              = (Inl (Error (Lit ''Session expired. Please log in again.'')), clearSession b, w')
            \<and> localStorage (clearSession b)
                = (localStorage b)(''authToken'' := None, ''userId'' := None, ''username'' := None))
         \<and> (status r \<noteq> 401 \<longrightarrow> fst (snd (makeRequest fetch url opts b w)) = b)"
proof (intro conjI impI)
  assume s: "status r = 401"
  then have "\<not> ok r" by (rule not_ok_401)
  then show "makeRequest fetch url opts b w
      = (Inl (Error (Lit ''Session expired. Please log in again.'')), clearSession b, w')"
    using assms s by (simp add: makeRequest_def Let_def)
next
  show "localStorage (clearSession b)
      = (localStorage b)(''authToken'' := None, ''userId'' := None, ''username'' := None)"
    by (simp add: clearSession_def)
next
  assume "status r \<noteq> 401"
  then show "fst (snd (makeRequest fetch url opts b w)) = b"
    using assms by (simp add: makeRequest_def Let_def split: option.split)
qed

theorem makeRequest_clears_session_only_on_401_witness:
  "localStorage (fst (snd (makeRequest (reply 401) (ApiUrl (js ''/cards/my-cards''))
        \<lparr>o_method = None, o_headers = Map.empty, o_body = None\<rparr> session ())))
     = [''theme'' \<mapsto> js ''dark'']
   \<and> fst (snd (makeRequest (reply 403) (ApiUrl (js ''/cards/my-cards''))
        \<lparr>o_method = None, o_headers = Map.empty, o_body = None\<rparr> session ())) = session"
proof -
  let ?url = "ApiUrl (js ''/cards/my-cards'')"
  let ?opts = "\<lparr>o_method = None, o_headers = Map.empty, o_body = None\<rparr>"
  have a: "reply 401 (mergedOptions ?url ?opts session) ()
             = (Response \<lparr>status = 401, statusText = [], json = None\<rparr>, ())"
    by (simp add: reply_def)
  have b: "reply 403 (mergedOptions ?url ?opts session) ()
             = (Response \<lparr>status = 403, statusText = [], json = None\<rparr>, ())"
    by (simp add: reply_def)
  have c: "(localStorage session)(''authToken'' := None, ''userId'' := None, ''username'' := None)
             = [''theme'' \<mapsto> js ''dark'']"
    by (auto simp: session_def fun_eq_iff)
  show ?thesis
    using makeRequest_clears_session_only_on_401 [where fetch = "reply 401", OF a]
      makeRequest_clears_session_only_on_401 [where fetch = "reply 403", OF b] c
    by simp
qed

text \<open>
  C4. For every card id that fails \<open>/^[a-zA-Z0-9_-]+$/\<close>, \<open>loadCard\<close> throws before it
  calls \<open>fetch\<close>: the result does not depend on \<open>fetch\<close>, the world is untouched, and
  a \<open>fetch\<close> that records its requests has recorded none.
\<close>

theorem loadCard_rejects_invalid_id_before_fetch:
  assumes "\<not> valid_card_id cid"
  shows "loadCard fetch b v (Some cid) recipientName w
           = (Inl (Error (Lit (if cid = [] then ''No card ID provided''
                               else ''Invalid card ID format''))), v, w)
         \<and> snd (snd (loadCard (logged fetch) b v (Some cid) recipientName ([], w))) = ([], w)"
proof (cases "cid = []")
  case True
  then show ?thesis by (simp add: loadCard_def truthy_def)
next
  case False
  then show ?thesis using assms by (simp add: loadCard_def truthy_def)
qed

theorem loadCard_rejects_invalid_id_before_fetch_witness:
  "loadCard (reply 200) session \<lparr>cardId = None, cardData = None\<rparr> (Some (js ''a/b'')) None ()
     = (Inl (Error (Lit ''Invalid card ID format'')), \<lparr>cardId = None, cardData = None\<rparr>, ())
   \<and> snd (snd (loadCard (logged (reply 200)) session \<lparr>cardId = None, cardData = None\<rparr>
                   (Some (js ''a/b'')) None ([], ()))) = ([], ())"
proof -
  have h: "\<not> valid_card_id (js ''a/b'')"
    by (simp add: valid_card_id_def js_def isIdChar_def)
  have n: "js ''a/b'' \<noteq> []" by (simp add: js_def)
  show ?thesis
    using loadCard_rejects_invalid_id_before_fetch
      [OF h, of "reply 200" session "\<lparr>cardId = None, cardData = None\<rparr>" None "()"] n
    by simp
qed

section \<open>The protocol\<close>

lemma render_card_without_name:
  "render_card sanitize org cid None st = Inr (out, st') \<Longrightarrow> st' = st"
  by (auto simp: render_card_def split: if_splits option.splits)

lemma render_card_with_name:
  assumes "valid_card_id cid" "cards st cid = Some c" "name_ok n"
  shows "render_card sanitize org cid (Some n) st
           = Inr (\<lparr>r_message = substitute_literal (sanitize n) (c_message c),
                   r_ai_voice_path = c_ai_voice_path c\<rparr>,
                  st\<lparr>events := events st @ [\<lparr>card_id = cid, viewer_name = sanitize n,
                                              viewed_at = now org, ip_address = ip org\<rparr>],
                     cards := (cards st)(cid \<mapsto> c\<lparr>view_count := view_count c + 1\<rparr>)\<rparr>)"
  using assms by (simp add: render_card_def)

lemma render_card_events:
  assumes "render_card sanitize org cid name st = Inr (out, st')"
  shows "events st' = events st
         \<or> (\<exists>n. name = Some n \<and> events st' = events st @ [\<lparr>card_id = cid, viewer_name = sanitize n,
                                              viewed_at = now org, ip_address = ip org\<rparr>])"
  using assms by (auto simp: render_card_def split: if_splits option.splits)

lemma resolve_audio_keeps_store:
  "resolve_audio cid name st = Inr (a, st') \<Longrightarrow> st' = st"
  by (auto simp: resolve_audio_def split: if_splits option.splits)

lemma resolve_audio_not_available:
  assumes "valid_card_id cid" "cards st cid = Some c" "c_ai_voice_path c = None"
  shows "resolve_audio cid name st = Inr (NotAvailable, st)"
  using assms by (simp add: resolve_audio_def)

lemma views_of_append:
  "views_of (st\<lparr>events := events st @ [e], cards := cs\<rparr>) k
     = views_of st k + (if card_id e = k then 1 else 0)"
  by (simp add: views_of_def)

lemma render_card_counts_agree:
  assumes "counts_agree st" "render_card sanitize org cid name st = Inr (out, st')"
  shows "counts_agree st'"
proof (cases name)
  case None
  then show ?thesis using assms render_card_without_name by metis
next
  case (Some n)
  from assms(2) Some obtain c where c: "cards st cid = Some c"
    and st': "st' = st\<lparr>events := events st @ [\<lparr>card_id = cid, viewer_name = sanitize n,
                                              viewed_at = now org, ip_address = ip org\<rparr>],
                     cards := (cards st)(cid \<mapsto> c\<lparr>view_count := view_count c + 1\<rparr>)\<rparr>"
    by (auto simp: render_card_def split: if_splits option.splits)
  show ?thesis
    unfolding counts_agree_def
  proof (intro allI impI)
    fix k d
    assume kd: "cards st' k = Some d"
    show "view_count d = views_of st' k"
    proof (cases "k = cid")
      case True
      then have "d = c\<lparr>view_count := view_count c + 1\<rparr>" using kd st' by simp
      moreover have "view_count c = views_of st cid"
        using assms(1) c by (simp add: counts_agree_def)
      ultimately show ?thesis using True st' by (simp add: views_of_append)
    next
      case False
      then have "cards st k = Some d" using kd st' by simp
      then have "view_count d = views_of st k" using assms(1) by (simp add: counts_agree_def)
      then show ?thesis using False st' by (simp add: views_of_append)
    qed
  qed
qed

lemma step_counts_agree: "counts_agree st \<Longrightarrow> counts_agree (step sanitize st opn)"
proof (cases opn)
  case (Render org cid name)
  assume "counts_agree st"
  then show ?thesis using Render
    by (auto simp: step_def split: sum.splits dest: render_card_counts_agree)
next
  case (ResolveAudio cid name)
  assume "counts_agree st"
  then show ?thesis using ResolveAudio
    by (auto simp: step_def split: sum.splits dest: resolve_audio_keeps_store)
qed

lemma empty_events_counts_agree:
  "events st = [] \<Longrightarrow> (\<And>cid c. cards st cid = Some c \<Longrightarrow> view_count c = 0) \<Longrightarrow> counts_agree st"
  by (simp add: counts_agree_def views_of_def)

text \<open>
  C3. In the protocol as the specification describes it, the cached \<open>view_count\<close> of
  every card equals the number of View Events recorded for it after every run of
  protocol operations, when it did before the run.
\<close>

theorem view_count_matches_events:
  "counts_agree st \<Longrightarrow> counts_agree (run sanitize st ops)"
  unfolding run_def
proof (induction ops arbitrary: st)
  case Nil
  then show ?case by simp
next
  case (Cons opn ops)
  then show ?case by (simp add: step_counts_agree)
qed

lemmas protocol_eval =
  run_def step_def render_card_def resolve_audio_def valid_card_id_def isIdChar_def
  name_ok_def tag_here_def sample_store_def sample_origin_def js_def

theorem view_count_matches_events_witness:
  "counts_agree sample_store
   \<and> counts_agree (run id sample_store sample_ops)
   \<and> map viewer_name (events (run id sample_store sample_ops)) = [js ''Alice'', js ''Bob'']
   \<and> map_option view_count (cards (run id sample_store sample_ops) (js ''abc123'')) = Some 2"
proof -
  have h: "counts_agree sample_store"
    by (rule empty_events_counts_agree) (auto simp: sample_store_def split: if_splits)
  have e: "map viewer_name (events (run id sample_store sample_ops)) = [js ''Alice'', js ''Bob'']
     \<and> map_option view_count (cards (run id sample_store sample_ops) (js ''abc123'')) = Some 2"
    by (simp add: sample_ops_def protocol_eval)
  show ?thesis
    using h e view_count_matches_events [OF h, of id sample_ops] by simp
qed

lemma serve_card_without_name:
  "target req = CardUrl c None \<Longrightarrow> snd (serve sanitize org req st) = st"
  by (auto simp: serve_def split: sum.splits proto_error.splits dest: render_card_without_name)

lemma serve_events_bound:
  "length (events (snd (serve sanitize org req st))) \<le> Suc (length (events st))"
proof (cases "target req")
  case (CardUrl c name)
  show ?thesis
  proof (cases "render_card sanitize org c name st")
    case (Inl e)
    then show ?thesis using CardUrl by (cases e) (simp_all add: serve_def)
  next
    case (Inr p)
    obtain out st' where p: "p = (out, st')" by (cases p)
    have "length (events st') \<le> Suc (length (events st))"
      using render_card_events [of sanitize org c name st out st'] Inr p by auto
    then show ?thesis using CardUrl Inr p by (simp add: serve_def)
  qed
qed (simp_all add: serve_def)

lemma serve_card_with_name:
  assumes "target req = CardUrl c (Some n)" "valid_card_id c" "cards st c = Some d" "name_ok n"
  shows "events (snd (serve sanitize org req st))
           = events st @ [\<lparr>card_id = c, viewer_name = sanitize n,
                            viewed_at = now org, ip_address = ip org\<rparr>]"
  using assms by (simp add: serve_def render_card_with_name)

text \<open>The world after \<open>loadCard\<close> is the one before, or the one after its single request.\<close>

lemma loadCard_world:
  "snd (snd (loadCard fetch b v cid recipientName w)) = w
   \<or> (\<exists>c url. cid = Some c \<and> card_url c recipientName = Inr url
        \<and> snd (snd (loadCard fetch b v cid recipientName w))
            = snd (fetch \<lparr>target = url, http_method = Some ''GET'',
                          headers = [''Content-Type'' \<mapsto> js ''application/json''],
                          body = None\<rparr> w))"
  by (auto simp: loadCard_def truthy_def split: option.splits sum.splits prod.splits
      fetch_outcome.splits)

lemma loadCard_sends:
  assumes "valid_card_id c" "onLine b" "card_url c recipientName = Inr url"
    and "truthy recipientName \<longrightarrow> isValid (validateRecipientName (the recipientName))"
  shows "snd (snd (loadCard fetch b v (Some c) recipientName w))
           = snd (fetch \<lparr>target = url, http_method = Some ''GET'',
                         headers = [''Content-Type'' \<mapsto> js ''application/json''],
                         body = None\<rparr> w)"
  using assms
  by (auto simp: loadCard_def truthy_def valid_card_id_def split: option.splits sum.splits prod.splits
      fetch_outcome.splits)

lemma card_url_without_name:
  "\<not> truthy recipientName \<Longrightarrow> card_url c recipientName = Inr url \<Longrightarrow> url = CardUrl c None"
  by (auto simp: card_url_def truthy_def split: option.splits if_splits)

text \<open>
  C2. A card request of the viewer page against the protocol as the specification
  describes it: without a viewer name no View Event is created; with a name that can
  be resolved (not empty, accepted by the page and by the protocol, encodable into
  the URL, for a well-formed id of a stored card, while online) exactly one View
  Event is appended, for that card and that name; and no request creates more than
  one.
\<close>

theorem one_view_event_per_named_request:
  "(\<not> truthy recipientName \<longrightarrow>
      events (snd (snd (loadCard (serve sanitize org) b v cid recipientName st))) = events st)
   \<and> (recipientName = Some n \<and> n \<noteq> [] \<and> isValid (validateRecipientName n) \<and> wellFormed n
        \<and> name_ok n \<and> cid = Some c \<and> valid_card_id c \<and> cards st c \<noteq> None \<and> onLine b \<longrightarrow>
      events (snd (snd (loadCard (serve sanitize org) b v cid recipientName st)))
        = events st @ [\<lparr>card_id = c, viewer_name = sanitize n,
                         viewed_at = now org, ip_address = ip org\<rparr>])
   \<and> length (events (snd (snd (loadCard (serve sanitize org) b v cid recipientName st))))
        \<le> Suc (length (events st))"
proof (intro conjI impI)
  assume falsy: "\<not> truthy recipientName"
  let ?after = "snd (snd (loadCard (serve sanitize org) b v cid recipientName st))"
  consider "?after = st"
    | c url where "card_url c recipientName = Inr url"
        "?after = snd (serve sanitize org
                         \<lparr>target = url, http_method = Some ''GET'',
                          headers = [''Content-Type'' \<mapsto> js ''application/json''],
                          body = None\<rparr> st)"
    using loadCard_world [of "serve sanitize org" b v cid recipientName st] by blast
  then show "events ?after = events st"
  proof cases
    case 1
    then show ?thesis by simp
  next
    case 2
    then have "url = CardUrl c None" using falsy card_url_without_name by blast
    then show ?thesis using 2 by (simp add: serve_card_without_name)
  qed
next
  assume a: "recipientName = Some n \<and> n \<noteq> [] \<and> isValid (validateRecipientName n)
      \<and> wellFormed n \<and> name_ok n \<and> cid = Some c \<and> valid_card_id c \<and> cards st c \<noteq> None
      \<and> onLine b"
  then obtain d where d: "cards st c = Some d" by auto
  have url: "card_url c recipientName = Inr (CardUrl c (Some n))"
    using a by (simp add: card_url_def)
  have "snd (snd (loadCard (serve sanitize org) b v (Some c) recipientName st))
          = snd (serve sanitize org
                  \<lparr>target = CardUrl c (Some n), http_method = Some ''GET'',
                   headers = [''Content-Type'' \<mapsto> js ''application/json''],
                   body = None\<rparr> st)"
    using a url by (intro loadCard_sends) (auto simp: truthy_def)
  then show "events (snd (snd (loadCard (serve sanitize org) b v cid recipientName st)))
      = events st @ [\<lparr>card_id = c, viewer_name = sanitize n,
                       viewed_at = now org, ip_address = ip org\<rparr>]"
    using a d by (simp add: serve_card_with_name)
next
  show "length (events (snd (snd (loadCard (serve sanitize org) b v cid recipientName st))))
      \<le> Suc (length (events st))"
  proof -
    let ?after = "snd (snd (loadCard (serve sanitize org) b v cid recipientName st))"
    consider "?after = st"
      | url where "?after = snd (serve sanitize org
                         \<lparr>target = url, http_method = Some ''GET'',
                          headers = [''Content-Type'' \<mapsto> js ''application/json''],
                          body = None\<rparr> st)"
      using loadCard_world [of "serve sanitize org" b v cid recipientName st] by blast
    then show ?thesis
    proof cases
      case 1
      then show ?thesis by simp
    next
      case 2
      then show ?thesis by (simp only: serve_events_bound)
    qed
  qed
qed

lemmas name_eval =
  validateRecipientName_def trim_def isWhiteSpace_def tag_here_def name_ok_def js_def
  valid_card_id_def isIdChar_def isHighSurrogate_def isLowSurrogate_def

theorem one_view_event_per_named_request_witness:
  "events (snd (snd (loadCard (serve id sample_origin) session sample_viewer
             (Some (js ''abc123'')) None sample_store))) = []
   \<and> events (snd (snd (loadCard (serve id sample_origin) session sample_viewer
             (Some (js ''abc123'')) (Some (js ''Alice'')) sample_store)))
       = [\<lparr>card_id = js ''abc123'', viewer_name = js ''Alice'',
           viewed_at = 1700000000, ip_address = None\<rparr>]"
proof -
  have h: "Some (js ''Alice'') = Some (js ''Alice'') \<and> js ''Alice'' \<noteq> []
      \<and> isValid (validateRecipientName (js ''Alice'')) \<and> wellFormed (js ''Alice'')
      \<and> name_ok (js ''Alice'') \<and> Some (js ''abc123'') = Some (js ''abc123'')
      \<and> valid_card_id (js ''abc123'') \<and> cards sample_store (js ''abc123'') \<noteq> None
      \<and> onLine session"
    by (simp add: name_eval sample_store_def session_def)
  have f: "\<not> truthy None" by (simp add: truthy_def)
  have e: "events sample_store = []" "now sample_origin = 1700000000" "ip sample_origin = None"
    by (simp_all add: sample_store_def sample_origin_def)
  show ?thesis
    using h f e
      one_view_event_per_named_request [of None id sample_origin session sample_viewer
        "Some (js ''abc123'')" sample_store]
      one_view_event_per_named_request [of "Some (js ''Alice'')" id sample_origin session
        sample_viewer "Some (js ''abc123'')" sample_store "js ''Alice''" "js ''abc123''"]
    by simp
qed

text \<open>
  C9. When the card that was loaded has no \<open>ai_voice_path\<close> (null, absent or empty),
  the submit handler shows the card with the note that the audio will be available
  soon: no error page, no request for the audio, and the world (with it, the View
  Events) is the one that loading the card left.
\<close>

theorem missing_audio_shows_coming_soon:
  assumes "isValid (validateRecipientName (trim field))"
    and "loadCard fetch b v (cardId v) (Some (trim field)) w = (Inr data, v', w')"
    and "message data = Some m"
    and "\<not> truthy (ai_voice_path data)"
  shows "submit fetch media b v field w
           = (CardShown (personalizeMessage m (trim field)) ComingSoon, v', w')
         \<and> show_audio media v' data (trim field) w' = (ComingSoon, w')"
  using assms by (simp add: submit_def show_audio_def Let_def)

lemma sample_load:
  "loadCard (serve id sample_origin) session sample_viewer (cardId sample_viewer)
     (Some (trim (js '' Alice ''))) sample_store
   = (Inr \<lparr>detail = None, message = Some (js ''Dear Alice, thank you!''),
           ai_voice_path = None\<rparr>,
      sample_viewer\<lparr>cardData := Some \<lparr>detail = None,
           message = Some (js ''Dear Alice, thank you!''), ai_voice_path = None\<rparr>\<rparr>,
      sample_store\<lparr>events := [\<lparr>card_id = js ''abc123'', viewer_name = js ''Alice'',
                                 viewed_at = 1700000000, ip_address = None\<rparr>],
                    cards := [js ''abc123'' \<mapsto>
                      \<lparr>owner_id = 1, c_message = js ''Dear {name}, thank you!'',
                       c_ai_voice_path = None, view_count = 1\<rparr>]\<rparr>)"
  by (simp add: loadCard_def serve_def render_card_def card_url_def truthy_def ok_def
      sample_viewer_def sample_store_def sample_origin_def session_def placeholder_def name_eval)

theorem missing_audio_shows_coming_soon_witness:
  "fst (submit (serve id sample_origin) load_media session sample_viewer (js '' Alice '')
          sample_store)
     = CardShown (js ''Dear Alice, thank you!'') ComingSoon
   \<and> map viewer_name (events (snd (snd (submit (serve id sample_origin) load_media session
          sample_viewer (js '' Alice '') sample_store)))) = [js ''Alice'']"
proof -
  have v: "isValid (validateRecipientName (trim (js '' Alice '')))"
    by (simp add: name_eval)
  have m: "message \<lparr>detail = None, message = Some (js ''Dear Alice, thank you!''),
                    ai_voice_path = None\<rparr> = Some (js ''Dear Alice, thank you!'')"
    by simp
  have a: "\<not> truthy (ai_voice_path \<lparr>detail = None,
             message = Some (js ''Dear Alice, thank you!''), ai_voice_path = None\<rparr>)"
    by (simp add: truthy_def)
  have p: "personalizeMessage (js ''Dear Alice, thank you!'') (trim (js '' Alice ''))
             = js ''Dear Alice, thank you!''"
    by (simp add: personalizeMessage_def placeholder_def name_eval)
  show ?thesis
    using missing_audio_shows_coming_soon [where media = load_media, OF v sample_load m a] p
    by simp
qed

end
